theory Spec2Isabelle
  imports Main "HOL-Library.AList" "HOL-Library.FSet" "HOL-Library.Sublist"
begin

section \<open>Data model of \<open>AddresBook_Levenshtein.py\<close>\<close>

text \<open>
  Python exceptions that the modelled code can raise.
\<close>

datatype error = ValueError

text \<open>
  \<open>class Field\<close> and its subclasses \<open>Name\<close>, \<open>Phone\<close>, \<open>Email\<close>, \<open>Birthday\<close>, \<open>Note\<close>
  wrap one string in the attribute \<open>value\<close>. None of them defines \<open>__eq__\<close>, so Python's
  \<open>==\<close> on two such objects is object identity. An object is therefore modelled with its
  identity \<open>oid\<close> next to its \<open>val\<close>, and \<open>py_eq\<close> is the comparison that \<open>list.remove\<close>
  and \<open>in\<close> perform on them.
\<close>

record field =
  oid :: nat
  val :: string

definition py_eq :: "field \<Rightarrow> field \<Rightarrow> bool" where
  "py_eq a b = (oid a = oid b)"

text \<open>\<open>class Address(Field)\<close>: four parts and the joined \<open>value\<close>.\<close>

record address =
  street :: string
  city :: string
  postal_code :: string
  country :: string
  address_value :: string

definition Address :: "string \<Rightarrow> string \<Rightarrow> string \<Rightarrow> string \<Rightarrow> address" where
  "Address st ci pc co =
     \<lparr>street = st, city = ci, postal_code = pc, country = co,
      address_value = st @ '', '' @ ci @ '', '' @ pc @ '', '' @ co\<rparr>"

text \<open>\<open>class Tag\<close>: a bare label.\<close>

record tag =
  tag_name :: string

text \<open>
  \<open>class Record\<close>. The attribute \<open>id\<close> is \<open>None\<close> until the address book assigns it.
\<close>

record Record =
  rid :: "int option"
  name :: field
  phones :: "field list"
  emails :: "field list"
  birthday :: "field option"
  address :: "address option"
  tags :: "tag list"
  "notes" :: "field list"

definition Record_init :: "field \<Rightarrow> field option \<Rightarrow> Record" where
  "Record_init n b =
     \<lparr>rid = None, name = n, phones = [], emails = [], birthday = b,
      address = None, tags = [], notes = []\<rparr>"

section \<open>The address book and its identifier allocator\<close>

text \<open>
  \<open>class AddressBook(UserDict)\<close>: \<open>data\<close> is a Python dictionary, which keeps its keys in
  insertion order, so it is an association list with distinct keys handled by
  \<open>AList.update\<close> (replace in place, or append) and \<open>AList.delete\<close>. \<open>free_ids\<close> is a
  Python set of integers, which is finite.
\<close>

record AddressBook =
  data :: "(int \<times> Record) list"
  next_id :: int
  free_ids :: "int fset"

definition AddressBook_init :: AddressBook where
  "AddressBook_init = \<lparr>data = [], next_id = 1, free_ids = {||}\<rparr>"

definition live_ids :: "AddressBook \<Rightarrow> int set" where
  "live_ids b = fst ` set (data b)"

definition in_data :: "int \<Rightarrow> (int \<times> Record) list \<Rightarrow> bool" where
  "in_data k d = (map_of d k \<noteq> None)"

text \<open>
  The loop \<open>while self.next_id in self.data or self.next_id in self.free_ids:
  self.next_id += 1\<close> of \<open>add_record\<close>, returning the final \<open>next_id\<close>.
\<close>

function advance_next_id :: "(int \<times> Record) list \<Rightarrow> int fset \<Rightarrow> int \<Rightarrow> int" where
  "advance_next_id d f n =
     (if in_data n d \<or> n |\<in>| f then advance_next_id d f (n + 1) else n)"
  by pat_completeness auto

termination
proof (relation "measure (\<lambda>(d, f, n). card {k \<in> fst ` set d \<union> fset f. n \<le> k})")
  show "wf (measure (\<lambda>(d, f, n). card {k \<in> fst ` set d \<union> fset f. n \<le> k}))"
    by simp
next
  fix d :: "(int \<times> Record) list" and f :: "int fset" and n :: int
  assume h: "in_data n d \<or> n |\<in>| f"
  let ?S = "fst ` set d \<union> fset f"
  have fin: "finite {k \<in> ?S. n \<le> k}" by simp
  have mem: "n \<in> {k \<in> ?S. n \<le> k}" using h by (auto simp: in_data_def map_of_eq_None_iff)
  have sub: "{k \<in> ?S. n + 1 \<le> k} \<subseteq> {k \<in> ?S. n \<le> k} - {n}" by auto
  have "card {k \<in> ?S. n + 1 \<le> k} \<le> card ({k \<in> ?S. n \<le> k} - {n})"
    by (rule card_mono) (use fin sub in auto)
  also have "\<dots> < card {k \<in> ?S. n \<le> k}"
    by (rule card_Diff1_less [OF fin mem])
  finally show "((d, f, n + 1), (d, f, n))
      \<in> measure (\<lambda>(d, f, n). card {k \<in> fst ` set d \<union> fset f. n \<le> k})"
    by simp
qed

declare advance_next_id.simps [simp del]

text \<open>
  \<open>AddressBook.add_record\<close>. The method mutates the book and stamps \<open>record.id\<close>; the model
  returns the new book and the stamped record.
\<close>

definition add_record :: "AddressBook \<Rightarrow> Record \<Rightarrow> AddressBook \<times> Record" where
  "add_record b r =
     (let n = advance_next_id (data b) (free_ids b) (next_id b) in
      if free_ids b \<noteq> {||} then
        (let i = fMin (free_ids b); r' = r\<lparr>rid := Some i\<rparr> in
         (\<lparr>data = AList.update i r' (data b), next_id = n,
           free_ids = free_ids b |-| {|i|}\<rparr>, r'))
      else
        (let r' = r\<lparr>rid := Some n\<rparr> in
         (\<lparr>data = AList.update n r' (data b), next_id = n + 1,
           free_ids = free_ids b\<rparr>, r')))"

text \<open>
  \<open>AddressBook.delete_record_by_id\<close>. The method reads a line, strips it, removes the text
  \<open>ID: \<close> and calls \<open>int\<close>; the model takes the outcome of that call, \<open>None\<close> when \<open>int\<close>
  raises \<open>ValueError\<close> (which the method catches). The printed message is returned with
  the book.
\<close>

datatype message = Deleted int | NotFound | InvalidId

definition delete_record_by_id :: "AddressBook \<Rightarrow> int option \<Rightarrow> AddressBook \<times> message" where
  "delete_record_by_id b parsed =
     (case parsed of
        None \<Rightarrow> (b, InvalidId)
      | Some record_id \<Rightarrow>
          if in_data record_id (data b) then
            (b\<lparr>data := AList.delete record_id (data b),
               free_ids := finsert record_id (free_ids b)\<rparr>, Deleted record_id)
          else (b, NotFound))"

text \<open>A sequence of inserts and deletes, applied from left to right.\<close>

datatype operation = AddRecord Record | DeleteById "int option"

fun apply_operation :: "AddressBook \<Rightarrow> operation \<Rightarrow> AddressBook" where
  "apply_operation b (AddRecord r) = fst (add_record b r)"
| "apply_operation b (DeleteById p) = fst (delete_record_by_id b p)"

definition run :: "operation list \<Rightarrow> AddressBook \<Rightarrow> AddressBook" where
  "run ops b = foldl apply_operation b ops"

section \<open>Editing the collections of a record\<close>

text \<open>
  \<open>list.remove(x)\<close> deletes the first item equal to \<open>x\<close> and raises \<open>ValueError\<close> when
  there is none.
\<close>

fun list_remove :: "field \<Rightarrow> field list \<Rightarrow> error + field list" where
  "list_remove x [] = Inl ValueError"
| "list_remove x (y # ys) =
     (if py_eq y x then Inr ys
      else (case list_remove x ys of Inl e \<Rightarrow> Inl e | Inr zs \<Rightarrow> Inr (y # zs)))"


definition remove_phone :: "Record \<Rightarrow> field \<Rightarrow> Record \<times> error option" where
  "remove_phone r phone =
     (case list_remove phone (phones r) of
        Inl e \<Rightarrow> (r, Some e)
      | Inr ps \<Rightarrow> (r\<lparr>phones := ps\<rparr>, None))"








section \<open>Searching\<close>

text \<open>
  A character of the model is a code point below 256 (Latin-1). On these \<open>str.lower\<close>
  maps the capitals \<open>A\<close>..\<open>Z\<close>, U+00C0..U+00D6 and U+00D8..U+00DE to the letter 32
  places up and leaves every other character alone.
\<close>

definition uppercase_letters :: string where
  "uppercase_letters =
     [CHR 0x41, CHR 0x42, CHR 0x43, CHR 0x44, CHR 0x45, CHR 0x46, CHR 0x47, CHR 0x48,
      CHR 0x49, CHR 0x4A, CHR 0x4B, CHR 0x4C, CHR 0x4D, CHR 0x4E, CHR 0x4F, CHR 0x50,
      CHR 0x51, CHR 0x52, CHR 0x53, CHR 0x54, CHR 0x55, CHR 0x56, CHR 0x57, CHR 0x58,
      CHR 0x59, CHR 0x5A, CHR 0xC0, CHR 0xC1, CHR 0xC2, CHR 0xC3, CHR 0xC4, CHR 0xC5,
      CHR 0xC6, CHR 0xC7, CHR 0xC8, CHR 0xC9, CHR 0xCA, CHR 0xCB, CHR 0xCC, CHR 0xCD,
      CHR 0xCE, CHR 0xCF, CHR 0xD0, CHR 0xD1, CHR 0xD2, CHR 0xD3, CHR 0xD4, CHR 0xD5,
      CHR 0xD6, CHR 0xD8, CHR 0xD9, CHR 0xDA, CHR 0xDB, CHR 0xDC, CHR 0xDD, CHR 0xDE]"

definition lowercase_letters :: string where
  "lowercase_letters =
     [CHR 0x61, CHR 0x62, CHR 0x63, CHR 0x64, CHR 0x65, CHR 0x66, CHR 0x67, CHR 0x68,
      CHR 0x69, CHR 0x6A, CHR 0x6B, CHR 0x6C, CHR 0x6D, CHR 0x6E, CHR 0x6F, CHR 0x70,
      CHR 0x71, CHR 0x72, CHR 0x73, CHR 0x74, CHR 0x75, CHR 0x76, CHR 0x77, CHR 0x78,
      CHR 0x79, CHR 0x7A, CHR 0xE0, CHR 0xE1, CHR 0xE2, CHR 0xE3, CHR 0xE4, CHR 0xE5,
      CHR 0xE6, CHR 0xE7, CHR 0xE8, CHR 0xE9, CHR 0xEA, CHR 0xEB, CHR 0xEC, CHR 0xED,
      CHR 0xEE, CHR 0xEF, CHR 0xF0, CHR 0xF1, CHR 0xF2, CHR 0xF3, CHR 0xF4, CHR 0xF5,
      CHR 0xF6, CHR 0xF8, CHR 0xF9, CHR 0xFA, CHR 0xFB, CHR 0xFC, CHR 0xFD, CHR 0xFE]"

definition lower_char :: "char \<Rightarrow> char" where
  "lower_char c =
     (case map_of (zip uppercase_letters lowercase_letters) c of
        None \<Rightarrow> c
      | Some l \<Rightarrow> l)"

definition lower :: "string \<Rightarrow> string" where
  "lower s = map lower_char s"

text \<open>Python's \<open>t in s\<close> on strings: \<open>t\<close> occurs in \<open>s\<close> as a contiguous run.\<close>

fun str_in :: "string \<Rightarrow> string \<Rightarrow> bool" where
  "str_in t [] = (t = [])"
| "str_in t (c # cs) = (prefix t (c # cs) \<or> str_in t cs)"

text \<open>
  The inner loops of \<open>find_record\<close>: \<open>for phone in record.phones: if search_term in
  phone.value: found_records.append(record); break\<close>, and the same over the emails.
\<close>

fun append_on_first_hit :: "string \<Rightarrow> field list \<Rightarrow> Record \<Rightarrow> Record list \<Rightarrow> Record list" where
  "append_on_first_hit search_term [] record found_records = found_records"
| "append_on_first_hit search_term (f # fs) record found_records =
     (if str_in search_term (val f) then found_records @ [record]
      else append_on_first_hit search_term fs record found_records)"

text \<open>
  The outer loop over \<open>self.data.values()\<close>: a hit on the name appends the record and
  continues with the next one; otherwise the phone loop runs and then the email loop.
\<close>

fun find_record_loop :: "string \<Rightarrow> Record list \<Rightarrow> Record list \<Rightarrow> Record list" where
  "find_record_loop search_term [] found_records = found_records"
| "find_record_loop search_term (record # rest) found_records =
     (if str_in (lower search_term) (lower (val (name record)))
      then find_record_loop search_term rest (found_records @ [record])
      else find_record_loop search_term rest
             (append_on_first_hit search_term (emails record) record
                (append_on_first_hit search_term (phones record) record found_records)))"

definition find_record :: "AddressBook \<Rightarrow> string \<Rightarrow> Record list" where
  "find_record b search_term = find_record_loop search_term (map snd (data b)) []"

text \<open>
  What one record adds to the result of \<open>find_record\<close>: the loop body, without the
  loops.
\<close>

definition record_hits :: "string \<Rightarrow> Record \<Rightarrow> Record list" where
  "record_hits search_term record =
     (if str_in (lower search_term) (lower (val (name record))) then [record]
      else (if \<exists>p\<in>set (phones record). str_in search_term (val p) then [record] else [])
           @ (if \<exists>e\<in>set (emails record). str_in search_term (val e) then [record] else []))"

text \<open>\<open>AddressBook.find_records_by_name\<close>: the pairs whose name contains the text.\<close>

definition find_records_by_name :: "AddressBook \<Rightarrow> string \<Rightarrow> (int \<times> Record) list" where
  "find_records_by_name b n =
     filter (\<lambda>(record_id, record). str_in (lower n) (lower (val (name record)))) (data b)"

section \<open>The suggested name\<close>

text \<open>
  Modelled from the spec: \<open>levenshtein_distance\<close> is \<open>Levenshtein.distance\<close> of the package
  \<open>Levenshtein\<close>, which the file imports; the spec gives it as the minimum number of
  single-character insertions, deletions and substitutions that turn one string into the
  other.
\<close>

fun levenshtein_distance :: "string \<Rightarrow> string \<Rightarrow> nat" where
  "levenshtein_distance [] t = length t"
| "levenshtein_distance (a # s) [] = Suc (length s)"
| "levenshtein_distance (a # s) (b # t) =
     min (min (Suc (levenshtein_distance s (b # t))) (Suc (levenshtein_distance (a # s) t)))
         (levenshtein_distance s t + (if a = b then 0 else 1))"

text \<open>
  Python's \<open>min(iterable, key=f)\<close>: \<open>ValueError\<close> on an empty iterable; otherwise the
  first item is kept until a later one has a strictly smaller key.
\<close>

fun min_loop :: "('a \<Rightarrow> nat) \<Rightarrow> 'a \<Rightarrow> 'a list \<Rightarrow> 'a" where
  "min_loop key best [] = best"
| "min_loop key best (x # xs) = min_loop key (if key x < key best then x else best) xs"

definition min_key :: "('a \<Rightarrow> nat) \<Rightarrow> 'a list \<Rightarrow> error + 'a" where
  "min_key key xs = (case xs of [] \<Rightarrow> Inl ValueError | x # rest \<Rightarrow> Inr (min_loop key x rest))"

definition suggest_correction_name :: "string \<Rightarrow> (int \<times> Record) list \<Rightarrow> error + string" where
  "suggest_correction_name name_to_edit matching_records =
     (case min_key (\<lambda>x. levenshtein_distance name_to_edit (val (name (snd x)))) matching_records of
        Inl e \<Rightarrow> Inl e
      | Inr closest_name \<Rightarrow> Inr (val (name (snd closest_name))))"

section \<open>Days to the next birthday\<close>

text \<open>
  \<open>datetime\<close> of Python's standard library, as far as \<open>days_to_birthday\<close> uses it: a naive
  date and time in the proleptic Gregorian calendar, compared field by field, with the
  day number \<open>toordinal\<close> (1 for 0001-01-01) behind the subtraction.
\<close>

record datetime =
  year :: int
  month :: int
  day :: int
  hour :: int
  minute :: int
  second :: int
  microsecond :: int

definition is_leap :: "int \<Rightarrow> bool" where
  "is_leap y = (y mod 4 = 0 \<and> (y mod 100 \<noteq> 0 \<or> y mod 400 = 0))"

definition days_in_month :: "int \<Rightarrow> int \<Rightarrow> int" where
  "days_in_month y m =
     (if m = 2 \<and> is_leap y then 29
      else [31, 28, 31, 30, 31, 30, 31, 31, 30, 31, 30, 31] ! nat (m - 1))"

definition days_before_year :: "int \<Rightarrow> int" where
  "days_before_year y = (y - 1) * 365 + (y - 1) div 4 - (y - 1) div 100 + (y - 1) div 400"

definition days_before_month :: "int \<Rightarrow> int \<Rightarrow> int" where
  "days_before_month y m =
     [0, 31, 59, 90, 120, 151, 181, 212, 243, 273, 304, 334] ! nat (m - 1)
     + (if 2 < m \<and> is_leap y then 1 else 0)"

definition ymd2ord :: "int \<Rightarrow> int \<Rightarrow> int \<Rightarrow> int" where
  "ymd2ord y m d = days_before_year y + days_before_month y m + d"

definition check_date_fields :: "int \<Rightarrow> int \<Rightarrow> int \<Rightarrow> bool" where
  "check_date_fields y m d =
     (1 \<le> y \<and> y \<le> 9999 \<and> 1 \<le> m \<and> m \<le> 12 \<and> 1 \<le> d \<and> d \<le> days_in_month y m)"

definition check_time_fields :: "int \<Rightarrow> int \<Rightarrow> int \<Rightarrow> int \<Rightarrow> bool" where
  "check_time_fields h mi s us =
     (0 \<le> h \<and> h \<le> 23 \<and> 0 \<le> mi \<and> mi \<le> 59 \<and> 0 \<le> s \<and> s \<le> 59 \<and> 0 \<le> us \<and> us \<le> 999999)"

text \<open>The datetimes that the constructor accepts; \<open>datetime.now()\<close> returns one of them.\<close>

definition valid_datetime :: "datetime \<Rightarrow> bool" where
  "valid_datetime t =
     (check_date_fields (year t) (month t) (day t)
      \<and> check_time_fields (hour t) (minute t) (second t) (microsecond t))"

text \<open>\<open>dt.replace(year=y)\<close> builds a new datetime and so checks the date again.\<close>

definition replace_year :: "datetime \<Rightarrow> int \<Rightarrow> error + datetime" where
  "replace_year t y =
     (if check_date_fields y (month t) (day t) then Inr (t\<lparr>year := y\<rparr>) else Inl ValueError)"

text \<open>\<open>a < b\<close> on naive datetimes compares the seven fields in order.\<close>

definition datetime_less :: "datetime \<Rightarrow> datetime \<Rightarrow> bool" where
  "datetime_less a b =
     (year a < year b \<or> (year a = year b \<and>
     (month a < month b \<or> (month a = month b \<and>
     (day a < day b \<or> (day a = day b \<and>
     (hour a < hour b \<or> (hour a = hour b \<and>
     (minute a < minute b \<or> (minute a = minute b \<and>
     (second a < second b \<or> (second a = second b \<and>
      microsecond a < microsecond b))))))))))))"

text \<open>
  \<open>timedelta(days, seconds, microseconds)\<close> normalises its integer arguments so that
  \<open>0 \<le> microseconds < 1000000\<close> and \<open>0 \<le> seconds < 86400\<close>, carrying into \<open>days\<close>.
\<close>

record timedelta =
  days :: int
  seconds :: int
  microseconds :: int

definition timedelta_init :: "int \<Rightarrow> int \<Rightarrow> int \<Rightarrow> timedelta" where
  "timedelta_init d s us =
     (let s1 = s + us div 1000000; us' = us mod 1000000;
          d1 = d + s1 div 86400; s' = s1 mod 86400
      in \<lparr>days = d1, seconds = s', microseconds = us'\<rparr>)"

text \<open>\<open>a - b\<close> on naive datetimes.\<close>

definition datetime_sub :: "datetime \<Rightarrow> datetime \<Rightarrow> timedelta" where
  "datetime_sub a b =
     (let days1 = ymd2ord (year a) (month a) (day a);
          days2 = ymd2ord (year b) (month b) (day b);
          secs1 = second a + minute a * 60 + hour a * 3600;
          secs2 = second b + minute b * 60 + hour b * 3600
      in timedelta_init (days1 - days2) (secs1 - secs2) (microsecond a - microsecond b))"

text \<open>
  The instant of a datetime, counted in microseconds from the start of day 0; the
  difference of two such counts is the time between the two datetimes.
\<close>

definition total_microseconds :: "datetime \<Rightarrow> int" where
  "total_microseconds t =
     ((ymd2ord (year t) (month t) (day t) * 86400
       + hour t * 3600 + minute t * 60 + second t) * 1000000 + microsecond t)"

text \<open>
  \<open>datetime.strptime(s, "%Y-%m-%d")\<close> on ASCII text. The format compiles to the pattern
  \<open>(\d\d\d\d)-(1[0-2]|0[1-9]|[1-9])-(3[0-1]|[1-2]\d|0[1-9]|[1-9]| [1-9])\<close>, which must cover
  the whole string; the three numbers must then form a date. Every failure is a
  \<open>ValueError\<close>. \<open>int_of_digits\<close> is \<open>int\<close> on a matched group: its digits, read in base
  ten (the blank that may start the day is skipped, as \<open>int\<close> does).
\<close>

definition is_digit :: "char \<Rightarrow> bool" where
  "is_digit c = (c \<in> set ''0123456789'')"

definition digit_value :: "char \<Rightarrow> int" where
  "digit_value c = int (length (takeWhile (\<lambda>d. d \<noteq> c) ''0123456789''))"

definition int_of_digits :: "string \<Rightarrow> int" where
  "int_of_digits s = foldl (\<lambda>n c. 10 * n + digit_value c) 0 (filter is_digit s)"

definition month_pattern :: "string \<Rightarrow> bool" where
  "month_pattern s =
     (case s of
        [a] \<Rightarrow> a \<in> set ''123456789''
      | [a, b] \<Rightarrow> (a = CHR ''1'' \<and> b \<in> set ''012'') \<or> (a = CHR ''0'' \<and> b \<in> set ''123456789'')
      | _ \<Rightarrow> False)"

definition day_pattern :: "string \<Rightarrow> bool" where
  "day_pattern s =
     (case s of
        [a] \<Rightarrow> a \<in> set ''123456789''
      | [a, b] \<Rightarrow> (a = CHR ''3'' \<and> b \<in> set ''01'') \<or> (a \<in> set ''12'' \<and> is_digit b)
                 \<or> (a = CHR ''0'' \<and> b \<in> set ''123456789'')
                 \<or> (a = CHR '' '' \<and> b \<in> set ''123456789'')
      | _ \<Rightarrow> False)"

definition strptime_ymd :: "string \<Rightarrow> error + datetime" where
  "strptime_ymd s =
     (let Y = take 4 s; r1 = drop 5 s;
          M = takeWhile (\<lambda>c. c \<noteq> CHR ''-'') r1;
          r2 = dropWhile (\<lambda>c. c \<noteq> CHR ''-'') r1;
          D = drop 1 r2
      in if length Y = 4 \<and> list_all is_digit Y \<and> take 1 (drop 4 s) = ''-''
            \<and> month_pattern M \<and> take 1 r2 = ''-'' \<and> day_pattern D
            \<and> check_date_fields (int_of_digits Y) (int_of_digits M) (int_of_digits D)
         then Inr \<lparr>year = int_of_digits Y, month = int_of_digits M, day = int_of_digits D,
                   hour = 0, minute = 0, second = 0, microsecond = 0\<rparr>
         else Inl ValueError)"

text \<open>
  \<open>Record.days_to_birthday\<close>, with the value of \<open>datetime.now()\<close> as the argument
  \<open>today\<close>. The method returns the text \<open>Brak daty urodzenia\<close> when there is no birthday,
  and a number of days otherwise.
\<close>

datatype days_result = Brak_daty_urodzenia | Days int

definition days_to_birthday :: "Record \<Rightarrow> datetime \<Rightarrow> error + days_result" where
  "days_to_birthday r today =
     (case birthday r of
        None \<Rightarrow> Inr Brak_daty_urodzenia
      | Some b \<Rightarrow>
          if val b = [] then Inr Brak_daty_urodzenia
          else
            (case strptime_ymd (val b) of
               Inl e \<Rightarrow> Inl e
             | Inr bday \<Rightarrow>
                 (case replace_year bday (year today) of
                    Inl e \<Rightarrow> Inl e
                  | Inr next_birthday \<Rightarrow>
                      if datetime_less next_birthday today then
                        (case replace_year next_birthday (year today + 1) of
                           Inl e \<Rightarrow> Inl e
                         | Inr next_birthday' \<Rightarrow>
                             Inr (Days (days (datetime_sub next_birthday' today))))
                      else Inr (Days (days (datetime_sub next_birthday today))))))"

section \<open>Properties of the allocator\<close>

lemma in_data_iff: "in_data k d \<longleftrightarrow> k \<in> fst ` set d"
  by (simp add: in_data_def map_of_eq_None_iff)

lemma advance_next_id_fresh:
  "\<not> in_data (advance_next_id d f n) d \<and> advance_next_id d f n |\<notin>| f"
proof (induction d f n rule: advance_next_id.induct)
  case (1 d f n)
  show ?case
  proof (cases "in_data n d \<or> n |\<in>| f")
    case True
    with 1 show ?thesis by (subst (1 2) advance_next_id.simps) simp
  next
    case False
    then show ?thesis by (subst (1 2) advance_next_id.simps) simp
  qed
qed

lemma advance_next_id_ge: "n \<le> advance_next_id d f n"
proof (induction d f n rule: advance_next_id.induct)
  case (1 d f n)
  show ?case
  proof (cases "in_data n d \<or> n |\<in>| f")
    case True
    with 1 have "n + 1 \<le> advance_next_id d f (n + 1)" by simp
    with True show ?thesis by (subst advance_next_id.simps) simp
  next
    case False
    then show ?thesis by (subst advance_next_id.simps) simp
  qed
qed

lemma advance_next_id_skipped:
  "n \<le> k \<Longrightarrow> k < advance_next_id d f n \<Longrightarrow> in_data k d \<or> k |\<in>| f"
proof (induction d f n rule: advance_next_id.induct)
  case (1 d f n)
  show ?case
  proof (cases "in_data n d \<or> n |\<in>| f")
    case True
    then have eq: "advance_next_id d f n = advance_next_id d f (n + 1)"
      by (subst advance_next_id.simps) simp
    show ?thesis
    proof (cases "k = n")
      case True
      with \<open>in_data n d \<or> n |\<in>| f\<close> show ?thesis by simp
    next
      case False
      with "1.prems" eq have "n + 1 \<le> k" "k < advance_next_id d f (n + 1)" by simp_all
      with "1.IH" [OF True] show ?thesis by simp
    qed
  next
    case False
    then have "advance_next_id d f n = n" by (subst advance_next_id.simps) simp
    with "1.prems" show ?thesis by simp
  qed
qed

lemma advance_next_id_id: "\<not> in_data n d \<Longrightarrow> n |\<notin>| f \<Longrightarrow> advance_next_id d f n = n"
  by (subst advance_next_id.simps) simp

lemma keys_delete: "fst ` set (AList.delete k d) = fst ` set d - {k}"
  by (auto simp: AList.delete_eq)

lemma disjoint_add_record:
  "fset (free_ids b) \<inter> live_ids b = {} \<Longrightarrow>
   fset (free_ids (fst (add_record b r))) \<inter> live_ids (fst (add_record b r)) = {}"
  by (auto simp: add_record_def live_ids_def Let_def dom_update)

lemma disjoint_delete:
  "fset (free_ids b) \<inter> live_ids b = {} \<Longrightarrow>
   fset (free_ids (fst (delete_record_by_id b p))) \<inter> live_ids (fst (delete_record_by_id b p)) = {}"
  by (auto simp: delete_record_by_id_def live_ids_def in_data_iff keys_delete
      split: option.splits)

lemma disjoint_run:
  "fset (free_ids b) \<inter> live_ids b = {} \<Longrightarrow>
   fset (free_ids (run ops b)) \<inter> live_ids (run ops b) = {}"
  unfolding run_def
proof (induction ops arbitrary: b)
  case Nil
  then show ?case by simp
next
  case (Cons x ops)
  have "fset (free_ids (apply_operation b x)) \<inter> live_ids (apply_operation b x) = {}"
    using Cons.prems by (cases x) (simp_all add: disjoint_add_record disjoint_delete)
  then show ?case using Cons.IH by simp
qed

text \<open>
  Claim C1. Starting from a fresh book, after every sequence of \<open>add_record\<close> and
  \<open>delete_record_by_id\<close> calls the pool \<open>free_ids\<close> and the keys of \<open>data\<close> have no
  identifier in common. Every prefix of a sequence is a sequence, so this holds after
  each operation.
\<close>

theorem free_ids_disjoint_live_ids:
  "fset (free_ids (run ops AddressBook_init)) \<inter> live_ids (run ops AddressBook_init) = {}"
  by (rule disjoint_run) (simp add: AddressBook_init_def live_ids_def)

lemma id_reuse_scenario:
  "(let (b1, a) = add_record AddressBook_init A;
        (b2, b') = add_record b1 B;
        (b3, m) = delete_record_by_id b2 (Some 1);
        (b4, c) = add_record b3 C
    in rid a = Some 1 \<and> rid b' = Some 2 \<and> m = Deleted 1 \<and> rid c = Some 1
       \<and> next_id b4 = 3 \<and> free_ids b4 = {||} \<and> map fst (data b4) = [2, 1])"
  by (simp add: add_record_def delete_record_by_id_def AddressBook_init_def Let_def
      advance_next_id.simps in_data_def)

text \<open>
  Claim C2. \<open>add_record\<close> takes the smallest free identifier first: when \<open>free_ids\<close> is not
  empty the record gets its minimum, which leaves the pool, whatever \<open>next_id\<close> is;
  otherwise it gets \<open>next_id\<close> as the loop left it (the first value from \<open>next_id\<close> on that
  is not a key; \<open>next_id\<close> itself when that is not a key), and \<open>next_id\<close> becomes the
  successor. From a fresh book: A gets 1, B gets 2, and after deleting 1, C gets 1.
\<close>

theorem add_record_smallest_free_first:
  "(free_ids b \<noteq> {||} \<longrightarrow>
      rid (snd (add_record b r)) = Some (fMin (free_ids b))
      \<and> (\<forall>k. k |\<in>| free_ids b \<longrightarrow> fMin (free_ids b) \<le> k)
      \<and> fMin (free_ids b) |\<in>| free_ids b
      \<and> free_ids (fst (add_record b r)) = free_ids b |-| {|fMin (free_ids b)|}
      \<and> map_of (data (fst (add_record b r))) (fMin (free_ids b)) = Some (snd (add_record b r)))
   \<and> (free_ids b = {||} \<longrightarrow>
      (let n = advance_next_id (data b) (free_ids b) (next_id b) in
       rid (snd (add_record b r)) = Some n
       \<and> next_id (fst (add_record b r)) = n + 1
       \<and> free_ids (fst (add_record b r)) = {||}
       \<and> map_of (data (fst (add_record b r))) n = Some (snd (add_record b r))
       \<and> next_id b \<le> n \<and> n \<notin> live_ids b
       \<and> (\<forall>k. next_id b \<le> k \<and> k < n \<longrightarrow> k \<in> live_ids b)
       \<and> (next_id b \<notin> live_ids b \<longrightarrow> n = next_id b)))
   \<and> snd (add_record b r) = r\<lparr>rid := rid (snd (add_record b r))\<rparr>
   \<and> (\<forall>A B C.
        let (b1, a) = add_record AddressBook_init A;
            (b2, b') = add_record b1 B;
            (b3, m) = delete_record_by_id b2 (Some 1);
            (b4, c) = add_record b3 C
        in rid a = Some 1 \<and> rid b' = Some 2 \<and> m = Deleted 1 \<and> rid c = Some 1)"
proof (intro conjI impI allI)
  fix A B C
  show "let (b1, a) = add_record AddressBook_init A;
            (b2, b') = add_record b1 B;
            (b3, m) = delete_record_by_id b2 (Some 1);
            (b4, c) = add_record b3 C
        in rid a = Some 1 \<and> rid b' = Some 2 \<and> m = Deleted 1 \<and> rid c = Some 1"
    using id_reuse_scenario [of A B C] by (simp add: Let_def split_beta)
next
  assume e: "free_ids b = {||}"
  let ?n = "advance_next_id (data b) (free_ids b) (next_id b)"
  have 1: "rid (snd (add_record b r)) = Some ?n" "next_id (fst (add_record b r)) = ?n + 1"
    "free_ids (fst (add_record b r)) = {||}"
    "map_of (data (fst (add_record b r))) ?n = Some (snd (add_record b r))"
    using e by (simp_all add: add_record_def Let_def update_conv')
  have 2: "next_id b \<le> ?n" by (rule advance_next_id_ge)
  have 3: "?n \<notin> live_ids b"
    using advance_next_id_fresh [of "data b" "free_ids b" "next_id b"]
    by (simp add: in_data_iff live_ids_def)
  have 4: "\<forall>k. next_id b \<le> k \<and> k < ?n \<longrightarrow> k \<in> live_ids b"
    using advance_next_id_skipped [of "next_id b" _ "data b" "free_ids b"] e
    by (auto simp: in_data_iff live_ids_def)
  have 5: "next_id b \<notin> live_ids b \<longrightarrow> ?n = next_id b"
    using e by (simp add: advance_next_id_id in_data_iff live_ids_def)
  show "let n = ?n in
       rid (snd (add_record b r)) = Some n
       \<and> next_id (fst (add_record b r)) = n + 1
       \<and> free_ids (fst (add_record b r)) = {||}
       \<and> map_of (data (fst (add_record b r))) n = Some (snd (add_record b r))
       \<and> next_id b \<le> n \<and> n \<notin> live_ids b
       \<and> (\<forall>k. next_id b \<le> k \<and> k < n \<longrightarrow> k \<in> live_ids b)
       \<and> (next_id b \<notin> live_ids b \<longrightarrow> n = next_id b)"
    unfolding Let_def using 1 2 3 4 5 by blast
qed (simp_all add: add_record_def Let_def update_conv')

text \<open>
  Claim C5. For an identifier that is a key, \<open>delete_record_by_id\<close> removes the entry
  (the other entries keep their order) and puts the identifier into \<open>free_ids\<close>; for one
  that is not a key it reports that nothing was found and returns the book as it was.
\<close>

theorem delete_record_by_id_live_or_not_found:
  "(i \<in> live_ids b \<longrightarrow>
      snd (delete_record_by_id b (Some i)) = Deleted i
      \<and> map_of (data (fst (delete_record_by_id b (Some i)))) = (map_of (data b))(i := None)
      \<and> live_ids (fst (delete_record_by_id b (Some i))) = live_ids b - {i}
      \<and> data (fst (delete_record_by_id b (Some i))) = filter (\<lambda>(k, _). i \<noteq> k) (data b)
      \<and> free_ids (fst (delete_record_by_id b (Some i))) = finsert i (free_ids b)
      \<and> next_id (fst (delete_record_by_id b (Some i))) = next_id b)
   \<and> (i \<notin> live_ids b \<longrightarrow> delete_record_by_id b (Some i) = (b, NotFound))"
proof (intro conjI impI)
  assume "i \<notin> live_ids b"
  then show "delete_record_by_id b (Some i) = (b, NotFound)"
    by (simp add: delete_record_by_id_def in_data_iff live_ids_def)
next
  assume "i \<in> live_ids b"
  then have eq: "delete_record_by_id b (Some i) =
      (b\<lparr>data := AList.delete i (data b), free_ids := finsert i (free_ids b)\<rparr>, Deleted i)"
    by (simp add: delete_record_by_id_def in_data_iff live_ids_def)
  show "snd (delete_record_by_id b (Some i)) = Deleted i"
    by (simp add: eq)
  show "map_of (data (fst (delete_record_by_id b (Some i)))) = (map_of (data b))(i := None)"
    by (simp add: eq delete_conv')
  show "live_ids (fst (delete_record_by_id b (Some i))) = live_ids b - {i}"
    by (simp add: eq live_ids_def keys_delete)
  show "data (fst (delete_record_by_id b (Some i))) = filter (\<lambda>(k, _). i \<noteq> k) (data b)"
    by (simp add: eq AList.delete_eq)
  show "free_ids (fst (delete_record_by_id b (Some i))) = finsert i (free_ids b)"
    by (simp add: eq)
  show "next_id (fst (delete_record_by_id b (Some i))) = next_id b"
    by (simp add: eq)
qed


lemma list_remove_eq:
  "list_remove x ys =
     (if \<exists>y\<in>set ys. py_eq y x
      then Inr (takeWhile (\<lambda>y. \<not> py_eq y x) ys @ tl (dropWhile (\<lambda>y. \<not> py_eq y x) ys))
      else Inl ValueError)"
  by (induction ys) auto

lemma first_hit_index:
  assumes "\<exists>y\<in>set ys. P y"
  defines "i \<equiv> length (takeWhile (\<lambda>y. \<not> P y) ys)"
  shows "i < length ys" "P (ys ! i)" "\<forall>j<i. \<not> P (ys ! j)"
    "takeWhile (\<lambda>y. \<not> P y) ys @ tl (dropWhile (\<lambda>y. \<not> P y) ys) = take i ys @ drop (Suc i) ys"
proof -
  have "length (takeWhile (\<lambda>y. \<not> P y) ys) < length ys
      \<and> P (ys ! length (takeWhile (\<lambda>y. \<not> P y) ys))
      \<and> (\<forall>j<length (takeWhile (\<lambda>y. \<not> P y) ys). \<not> P (ys ! j))
      \<and> takeWhile (\<lambda>y. \<not> P y) ys @ tl (dropWhile (\<lambda>y. \<not> P y) ys)
          = take (length (takeWhile (\<lambda>y. \<not> P y) ys)) ys
            @ drop (Suc (length (takeWhile (\<lambda>y. \<not> P y) ys))) ys"
    using assms(1)
  proof (induction ys)
    case Nil
    then show ?case by simp
  next
    case (Cons y ys)
    show ?case
    proof (cases "P y")
      case True
      then show ?thesis by simp
    next
      case False
      with Cons.prems have "\<exists>y\<in>set ys. P y" by simp
      from Cons.IH [OF this] False show ?thesis
        by (auto simp: nth_Cons')
    qed
  qed
  then show "i < length ys" "P (ys ! i)" "\<forall>j<i. \<not> P (ys ! j)"
    "takeWhile (\<lambda>y. \<not> P y) ys @ tl (dropWhile (\<lambda>y. \<not> P y) ys) = take i ys @ drop (Suc i) ys"
    unfolding i_def by blast+
qed

lemma list_remove_present:
  assumes "\<exists>y\<in>set ys. py_eq y x"
  shows "\<exists>i<length ys. py_eq (ys ! i) x \<and> (\<forall>j<i. \<not> py_eq (ys ! j) x)
           \<and> list_remove x ys = Inr (take i ys @ drop (Suc i) ys)"
proof -
  let ?i = "length (takeWhile (\<lambda>y. \<not> py_eq y x) ys)"
  from first_hit_index [of ys "\<lambda>y. py_eq y x", OF assms]
  have "?i < length ys" "py_eq (ys ! ?i) x" "\<forall>j< ?i. \<not> py_eq (ys ! j) x"
    "takeWhile (\<lambda>y. \<not> py_eq y x) ys @ tl (dropWhile (\<lambda>y. \<not> py_eq y x) ys)
       = take ?i ys @ drop (Suc ?i) ys"
    by simp_all
  moreover have "list_remove x ys
      = Inr (takeWhile (\<lambda>y. \<not> py_eq y x) ys @ tl (dropWhile (\<lambda>y. \<not> py_eq y x) ys))"
    using assms by (simp add: list_remove_eq)
  ultimately show ?thesis by metis
qed

lemma list_remove_absent: "\<forall>y\<in>set ys. \<not> py_eq y x \<Longrightarrow> list_remove x ys = Inl ValueError"
  by (simp add: list_remove_eq)


text \<open>
  Claim C8, as amended. \<open>remove_phone\<close> deletes the first entry equal to its argument; when
  there is none it raises \<open>ValueError\<close> and leaves the record as it was.
\<close>

theorem remove_phone_first_or_ValueError:
  "((\<exists>p\<in>set (phones r). py_eq p phone) \<longrightarrow>
      (\<exists>i<length (phones r). py_eq (phones r ! i) phone
         \<and> (\<forall>j<i. \<not> py_eq (phones r ! j) phone)
         \<and> remove_phone r phone
             = (r\<lparr>phones := take i (phones r) @ drop (Suc i) (phones r)\<rparr>, None)))
   \<and> ((\<forall>p\<in>set (phones r). \<not> py_eq p phone) \<longrightarrow> remove_phone r phone = (r, Some ValueError))"
proof (intro conjI impI)
  assume "\<exists>p\<in>set (phones r). py_eq p phone"
  from list_remove_present [OF this] obtain i where
    i: "i < length (phones r)" "py_eq (phones r ! i) phone"
    "\<forall>j<i. \<not> py_eq (phones r ! j) phone"
    "list_remove phone (phones r) = Inr (take i (phones r) @ drop (Suc i) (phones r))"
    by blast
  have "remove_phone r phone = (r\<lparr>phones := take i (phones r) @ drop (Suc i) (phones r)\<rparr>, None)"
    by (simp add: remove_phone_def i(4))
  with i(1-3) show "\<exists>i<length (phones r). py_eq (phones r ! i) phone
      \<and> (\<forall>j<i. \<not> py_eq (phones r ! j) phone)
      \<and> remove_phone r phone
          = (r\<lparr>phones := take i (phones r) @ drop (Suc i) (phones r)\<rparr>, None)"
    by blast
next
  assume "\<forall>p\<in>set (phones r). \<not> py_eq p phone"
  then show "remove_phone r phone = (r, Some ValueError)"
    by (simp add: remove_phone_def list_remove_absent)
qed

section \<open>Properties of the search and of the suggested name\<close>

lemma str_in_iff_sublist: "str_in t s \<longleftrightarrow> sublist t s"
  by (induction s) (simp_all add: sublist_Cons_right)

lemma append_on_first_hit_eq:
  "append_on_first_hit t fs r found
     = found @ (if \<exists>f\<in>set fs. str_in t (val f) then [r] else [])"
  by (induction fs) simp_all

lemma find_record_loop_eq:
  "find_record_loop t rs found = found @ concat (map (record_hits t) rs)"
  by (induction rs arbitrary: found) (simp_all add: append_on_first_hit_eq record_hits_def)

lemma find_record_eq: "find_record b t = concat (map (record_hits t) (map snd (data b)))"
  by (simp add: find_record_def find_record_loop_eq)

lemma set_record_hits:
  "set (record_hits t r) =
     (if sublist (lower t) (lower (val (name r)))
         \<or> (\<exists>p\<in>set (phones r). sublist t (val p))
         \<or> (\<exists>e\<in>set (emails r). sublist t (val e)) then {r} else {})"
  by (auto simp: record_hits_def str_in_iff_sublist)

text \<open>
  Claim C9. The records that \<open>find_record\<close> returns are exactly the records of the book in
  which the term occurs in the name without regard to case, or occurs as written in a
  phone or in an email.
\<close>

theorem find_record_exactly_matching:
  "set (find_record b t) =
     {r \<in> snd ` set (data b).
        sublist (lower t) (lower (val (name r)))
        \<or> (\<exists>p\<in>set (phones r). sublist t (val p))
        \<or> (\<exists>e\<in>set (emails r). sublist t (val e))}"
  unfolding find_record_eq set_concat by (auto simp: set_record_hits split: if_splits)

lemma count_list_concat_distinct:
  "distinct xs \<Longrightarrow> x \<in> set xs \<Longrightarrow> (\<And>y. set (f y) \<subseteq> {y}) \<Longrightarrow>
     count_list (concat (map f xs)) x = count_list (f x) x"
proof (induction xs)
  case Nil
  then show ?case by simp
next
  case (Cons a xs)
  have other: "count_list (f y) x = 0" if "y \<noteq> x" for y
    using Cons.prems(3) [of y] that by (auto simp: count_list_0_iff)
  show ?case
  proof (cases "a = x")
    case True
    then have "x \<notin> set xs" using Cons.prems(1) by simp
    then have "count_list (concat (map f xs)) x = 0"
      using Cons.prems(3) by (fastforce simp: count_list_0_iff)
    with True show ?thesis by simp
  next
    case False
    with Cons show ?thesis by (simp add: other)
  qed
qed

text \<open>
  Claim C10. A record whose name does not contain the term, while one of its phones and
  one of its emails do, is in the result twice: the hit in the phone loop does not skip
  the email loop.
\<close>

theorem find_record_phone_and_email_twice:
  assumes "(k, r) \<in> set (data b)"
    and "distinct (map snd (data b))"
    and "\<not> sublist (lower t) (lower (val (name r)))"
    and "\<exists>p\<in>set (phones r). sublist t (val p)"
    and "\<exists>e\<in>set (emails r). sublist t (val e)"
  shows "count_list (find_record b t) r = 2"
proof -
  have "r \<in> set (map snd (data b))" using assms(1) by force
  moreover have "set (record_hits t y) \<subseteq> {y}" for y
    by (auto simp: record_hits_def)
  ultimately have "count_list (find_record b t) r = count_list (record_hits t r) r"
    unfolding find_record_eq using assms(2) by (rule_tac count_list_concat_distinct) auto
  also have "record_hits t r = [r, r]"
    using assms(3-5) by (simp add: record_hits_def str_in_iff_sublist)
  finally show ?thesis by simp
qed

lemma min_loop_snoc:
  "min_loop key b (xs @ [x]) = (if key x < key (min_loop key b xs) then x else min_loop key b xs)"
  by (induction xs arbitrary: b) simp_all

lemma min_loop_split:
  "\<exists>pre post. b # xs = pre @ min_loop key b xs # post
     \<and> (\<forall>y\<in>set pre. key (min_loop key b xs) < key y)
     \<and> (\<forall>y\<in>set post. key (min_loop key b xs) \<le> key y)"
proof (induction xs rule: rev_induct)
  case Nil
  show ?case by (rule exI [of _ "[]"], rule exI [of _ "[]"]) simp
next
  case (snoc x xs)
  then obtain pre post where s: "b # xs = pre @ min_loop key b xs # post"
    "\<forall>y\<in>set pre. key (min_loop key b xs) < key y"
    "\<forall>y\<in>set post. key (min_loop key b xs) \<le> key y"
    by blast
  show ?case
  proof (cases "key x < key (min_loop key b xs)")
    case True
    then have r: "min_loop key b (xs @ [x]) = x" by (simp add: min_loop_snoc)
    have "\<forall>y\<in>set (b # xs). key x < key y"
    proof
      fix y assume "y \<in> set (b # xs)"
      then have "y \<in> set pre \<or> y = min_loop key b xs \<or> y \<in> set post"
        unfolding s(1) by auto
      with s(2,3) True show "key x < key y" by force
    qed
    then show ?thesis
      unfolding r by (intro exI [of _ "b # xs"] exI [of _ "[]"]) simp
  next
    case False
    then have r: "min_loop key b (xs @ [x]) = min_loop key b xs" by (simp add: min_loop_snoc)
    have 1: "b # xs @ [x] = pre @ min_loop key b xs # (post @ [x])"
      using s(1) by simp
    have 2: "\<forall>y\<in>set (post @ [x]). key (min_loop key b xs) \<le> key y"
      using s(3) False by auto
    show ?thesis
      unfolding r using 1 2 s(2) by (intro exI [of _ pre] exI [of _ "post @ [x]"]) simp
  qed
qed

lemma min_loop_first_least:
  "\<exists>i<length (b # xs). min_loop key b xs = (b # xs) ! i
     \<and> (\<forall>j<length (b # xs). key ((b # xs) ! i) \<le> key ((b # xs) ! j))
     \<and> (\<forall>j<i. key ((b # xs) ! i) < key ((b # xs) ! j))"
proof -
  obtain pre post where s: "b # xs = pre @ min_loop key b xs # post"
    "\<forall>y\<in>set pre. key (min_loop key b xs) < key y"
    "\<forall>y\<in>set post. key (min_loop key b xs) \<le> key y"
    using min_loop_split [of b xs key] by blast
  let ?r = "min_loop key b xs"
  have 1: "length pre < length (b # xs)" unfolding s(1) by simp
  have 2: "(b # xs) ! length pre = ?r" unfolding s(1) by simp
  have 3: "key ?r \<le> key ((b # xs) ! j)" if "j < length (b # xs)" for j
  proof -
    have "(b # xs) ! j \<in> set (b # xs)" using that by (rule nth_mem)
    then have "(b # xs) ! j \<in> set pre \<or> (b # xs) ! j = ?r \<or> (b # xs) ! j \<in> set post"
      unfolding s(1) by auto
    with s(2,3) show ?thesis by force
  qed
  have 4: "key ?r < key ((b # xs) ! j)" if "j < length pre" for j
  proof -
    have "(b # xs) ! j = pre ! j" unfolding s(1) using that by (simp add: nth_append)
    with that s(2) show ?thesis by simp
  qed
  show ?thesis
    using 1 2 3 4 by (intro exI [of _ "length pre"]) simp
qed

text \<open>
  Claim C4. On a non-empty list \<open>suggest_correction_name\<close> returns the name of the first
  candidate whose name is at the least Levenshtein distance from the query; on the empty
  list it raises \<open>ValueError\<close>.
\<close>

theorem suggest_correction_name_stable_argmin:
  "suggest_correction_name q [] = Inl ValueError
   \<and> (ms \<noteq> [] \<longrightarrow>
       (\<exists>i<length ms.
          suggest_correction_name q ms = Inr (val (name (snd (ms ! i))))
          \<and> (\<forall>j<length ms. levenshtein_distance q (val (name (snd (ms ! i))))
                \<le> levenshtein_distance q (val (name (snd (ms ! j)))))
          \<and> (\<forall>j<i. levenshtein_distance q (val (name (snd (ms ! i))))
                < levenshtein_distance q (val (name (snd (ms ! j)))))))"
proof (intro conjI impI)
  show "suggest_correction_name q [] = Inl ValueError"
    by (simp add: suggest_correction_name_def min_key_def)
next
  assume "ms \<noteq> []"
  then obtain m rest where ms: "ms = m # rest" by (cases ms) auto
  let ?key = "\<lambda>x. levenshtein_distance q (val (name (snd x)))"
  from min_loop_first_least [of m rest ?key] obtain i where
    i: "i < length ms" "min_loop ?key m rest = ms ! i"
    "\<forall>j<length ms. ?key (ms ! i) \<le> ?key (ms ! j)" "\<forall>j<i. ?key (ms ! i) < ?key (ms ! j)"
    unfolding ms by blast
  have "suggest_correction_name q ms = Inr (val (name (snd (ms ! i))))"
    using i(2) by (simp add: suggest_correction_name_def min_key_def ms)
  with i(1,3,4) show "\<exists>i<length ms.
          suggest_correction_name q ms = Inr (val (name (snd (ms ! i))))
          \<and> (\<forall>j<length ms. levenshtein_distance q (val (name (snd (ms ! i))))
                \<le> levenshtein_distance q (val (name (snd (ms ! j)))))
          \<and> (\<forall>j<i. levenshtein_distance q (val (name (snd (ms ! i))))
                < levenshtein_distance q (val (name (snd (ms ! j)))))"
    by blast
qed

section \<open>Properties of the days to the next birthday\<close>

lemma strptime_2000_01_01:
  "strptime_ymd ''2000-01-01''
     = Inr \<lparr>year = 2000, month = 1, day = 1, hour = 0, minute = 0, second = 0, microsecond = 0\<rparr>"
  by (simp add: strptime_ymd_def Let_def is_digit_def month_pattern_def day_pattern_def
      int_of_digits_def digit_value_def check_date_fields_def days_in_month_def is_leap_def)

lemma days_datetime_sub:
  "days (datetime_sub a b) = (total_microseconds a - total_microseconds b) div 86400000000"
proof -
  define d where "d = ymd2ord (year a) (month a) (day a) - ymd2ord (year b) (month b) (day b)"
  define s where "s = (second a + minute a * 60 + hour a * 3600)
                      - (second b + minute b * 60 + hour b * 3600)"
  define u where "u = microsecond a - microsecond b"
  have 1: "days (datetime_sub a b) = d + (s + u div 1000000) div 86400"
    by (simp add: datetime_sub_def timedelta_init_def Let_def d_def s_def u_def)
  have 2: "total_microseconds a - total_microseconds b = (d * 86400 + s) * 1000000 + u"
    by (simp add: total_microseconds_def d_def s_def u_def algebra_simps)
  have "((d * 86400 + s) * 1000000 + u) div 86400000000
      = (((d * 86400 + s) * 1000000 + u) div 1000000) div 86400"
    by (simp add: zdiv_zmult2_eq)
  also have "\<dots> = (d * 86400 + s + u div 1000000) div 86400"
    by simp
  also have "\<dots> = d + (s + u div 1000000) div 86400"
    by simp
  finally show ?thesis using 1 2 by simp
qed

lemma strptime_empty: "strptime_ymd [] = Inl ValueError"
  by (simp add: strptime_ymd_def)

lemma days_to_birthday_eq:
  assumes "birthday r = Some b" and "strptime_ymd (val b) = Inr bday"
    and "check_date_fields (year today) (month bday) (day bday)"
    and "datetime_less (bday\<lparr>year := year today\<rparr>) today
           \<longrightarrow> check_date_fields (year today + 1) (month bday) (day bday)"
  shows "days_to_birthday r today
     = Inr (Days ((total_microseconds
                     (if datetime_less (bday\<lparr>year := year today\<rparr>) today
                      then bday\<lparr>year := year today + 1\<rparr> else bday\<lparr>year := year today\<rparr>)
                   - total_microseconds today) div 86400000000))"
proof -
  have ne: "val b \<noteq> []" using assms(2) strptime_empty by auto
  show ?thesis
  proof (cases "datetime_less (bday\<lparr>year := year today\<rparr>) today")
    case True
    with assms(4) have c: "check_date_fields (year today + 1) (month bday) (day bday)" by simp
    show ?thesis
      using assms(1,2,3) ne True c
      by (simp add: days_to_birthday_def replace_year_def days_datetime_sub)
  next
    case False
    show ?thesis
      using assms(1,2,3) ne False
      by (simp add: days_to_birthday_def replace_year_def days_datetime_sub)
  qed
qed

lemma days_to_birthday_2024_01_02_midnight:
  "days_to_birthday (Record_init \<lparr>oid = 0, val = ''Anna''\<rparr> (Some \<lparr>oid = 1, val = ''2000-01-01''\<rparr>))
     \<lparr>year = 2024, month = 1, day = 2, hour = 0, minute = 0, second = 0, microsecond = 0\<rparr>
   = Inr (Days 365)"
  by (simp add: days_to_birthday_def Record_init_def strptime_2000_01_01 replace_year_def
      check_date_fields_def days_in_month_def is_leap_def datetime_less_def datetime_sub_def
      timedelta_init_def ymd2ord_def days_before_year_def days_before_month_def Let_def)


lemma strptime_2000_02_29:
  "strptime_ymd ''2000-02-29''
     = Inr \<lparr>year = 2000, month = 2, day = 29, hour = 0, minute = 0, second = 0, microsecond = 0\<rparr>"
  by (simp add: strptime_ymd_def Let_def is_digit_def month_pattern_def day_pattern_def
      int_of_digits_def digit_value_def check_date_fields_def days_in_month_def is_leap_def)

lemma days_to_birthday_leap_day_raises:
  "days_to_birthday (Record_init \<lparr>oid = 0, val = ''Anna''\<rparr> (Some \<lparr>oid = 1, val = ''2000-02-29''\<rparr>))
     \<lparr>year = 2023, month = 6, day = 1, hour = 12, minute = 0, second = 0, microsecond = 0\<rparr>
   = Inl ValueError"
  by (simp add: days_to_birthday_def Record_init_def strptime_2000_02_29 replace_year_def
      check_date_fields_def days_in_month_def is_leap_def)

lemma days_to_birthday_2024_01_02_later:
  assumes "check_time_fields h mi s us" and "(h, mi, s, us) \<noteq> (0, 0, 0, 0)"
  shows "days_to_birthday
       (Record_init \<lparr>oid = 0, val = ''Anna''\<rparr> (Some \<lparr>oid = 1, val = ''2000-01-01''\<rparr>))
       \<lparr>year = 2024, month = 1, day = 2, hour = h, minute = mi, second = s, microsecond = us\<rparr>
     = Inr (Days 364)"
proof -
  let ?t = "(h * 3600 + mi * 60 + s) * 1000000 + us"
  have b: "0 < ?t" "?t < 86400000000"
    using assms by (auto simp: check_time_fields_def)
  have e: "days_to_birthday
       (Record_init \<lparr>oid = 0, val = ''Anna''\<rparr> (Some \<lparr>oid = 1, val = ''2000-01-01''\<rparr>))
       \<lparr>year = 2024, month = 1, day = 2, hour = h, minute = mi, second = s, microsecond = us\<rparr>
     = Inr (Days ((365 * 86400000000 - ?t) div 86400000000))"
    by (simp add: days_to_birthday_def Record_init_def strptime_2000_01_01 replace_year_def
        check_date_fields_def days_in_month_def is_leap_def datetime_less_def
        days_datetime_sub total_microseconds_def ymd2ord_def days_before_year_def
        days_before_month_def algebra_simps)
  define x where "x = 86400000000 - ?t"
  have x: "0 \<le> x" "x < 86400000000" using b by (simp_all add: x_def)
  have "365 * 86400000000 - ?t = x + 364 * 86400000000" by (simp add: x_def)
  then have "(365 * 86400000000 - ?t) div 86400000000 = (x + 364 * 86400000000) div 86400000000"
    by simp
  also have "\<dots> = x div 86400000000 + 364" by simp
  also have "x div 86400000000 = 0" using x by simp
  finally have "(365 * 86400000000 - ?t) div 86400000000 = 364" by simp
  with e show ?thesis by simp
qed


text \<open>
  Claim C6, as amended. With a birthday whose month and day form a date in the current
  year (and in the next one, when that is needed), \<open>days_to_birthday\<close> takes that date
  of the current year at midnight, moves it to the next year exactly when it is
  strictly before \<open>today\<close>, and returns the whole days from \<open>today\<close> to it, rounded down.
  For the birthday 2000-01-01 and \<open>today\<close> = 2024-01-02 at midnight the result is 365
  (2024 is a leap year); at every later instant of that day it is 364.
\<close>

theorem days_to_birthday_next_occurrence:
  "(birthday r = Some b \<and> strptime_ymd (val b) = Inr bday
      \<and> check_date_fields (year today) (month bday) (day bday)
      \<and> (datetime_less (bday\<lparr>year := year today\<rparr>) today
            \<longrightarrow> check_date_fields (year today + 1) (month bday) (day bday))
    \<longrightarrow> days_to_birthday r today
          = Inr (Days ((total_microseconds
                          (if datetime_less (bday\<lparr>year := year today\<rparr>) today
                           then bday\<lparr>year := year today + 1\<rparr>
                           else bday\<lparr>year := year today\<rparr>)
                        - total_microseconds today) div 86400000000)))
   \<and> days_to_birthday
        (Record_init \<lparr>oid = 0, val = ''Anna''\<rparr> (Some \<lparr>oid = 1, val = ''2000-01-01''\<rparr>))
        \<lparr>year = 2024, month = 1, day = 2, hour = 0, minute = 0, second = 0, microsecond = 0\<rparr>
      = Inr (Days 365)
   \<and> (\<forall>h mi s us. check_time_fields h mi s us \<and> (h, mi, s, us) \<noteq> (0, 0, 0, 0)
        \<longrightarrow> days_to_birthday
              (Record_init \<lparr>oid = 0, val = ''Anna''\<rparr> (Some \<lparr>oid = 1, val = ''2000-01-01''\<rparr>))
              \<lparr>year = 2024, month = 1, day = 2, hour = h, minute = mi, second = s,
                microsecond = us\<rparr>
            = Inr (Days 364))"
  using days_to_birthday_eq [of r b bday today] days_to_birthday_2024_01_02_midnight
    days_to_birthday_2024_01_02_later
  by blast

section \<open>The theorems at concrete inputs\<close>

theorem free_ids_disjoint_live_ids_witness:
  "fset (free_ids (run [AddRecord (Record_init \<lparr>oid = 0, val = ''Anna''\<rparr> None),
                        AddRecord (Record_init \<lparr>oid = 1, val = ''Jan''\<rparr> None),
                        DeleteById (Some 1),
                        AddRecord (Record_init \<lparr>oid = 2, val = ''Ewa''\<rparr> None)] AddressBook_init))
   \<inter> live_ids (run [AddRecord (Record_init \<lparr>oid = 0, val = ''Anna''\<rparr> None),
                        AddRecord (Record_init \<lparr>oid = 1, val = ''Jan''\<rparr> None),
                        DeleteById (Some 1),
                        AddRecord (Record_init \<lparr>oid = 2, val = ''Ewa''\<rparr> None)] AddressBook_init) = {}"
  by (rule free_ids_disjoint_live_ids)

theorem add_record_smallest_free_first_witness:
  "free_ids \<lparr>data = [(2, Record_init \<lparr>oid = 1, val = ''Jan''\<rparr> None\<lparr>rid := Some 2\<rparr>)],
             next_id = 3, free_ids = {|1, 4|}\<rparr> \<noteq> {||}
   \<and> rid (snd (add_record
        \<lparr>data = [(2, Record_init \<lparr>oid = 1, val = ''Jan''\<rparr> None\<lparr>rid := Some 2\<rparr>)],
          next_id = 3, free_ids = {|1, 4|}\<rparr>
        (Record_init \<lparr>oid = 2, val = ''Ewa''\<rparr> None))) = Some 1
   \<and> free_ids (fst (add_record
        \<lparr>data = [(2, Record_init \<lparr>oid = 1, val = ''Jan''\<rparr> None\<lparr>rid := Some 2\<rparr>)],
          next_id = 3, free_ids = {|1, 4|}\<rparr>
        (Record_init \<lparr>oid = 2, val = ''Ewa''\<rparr> None))) = {|4|}"
  using add_record_smallest_free_first
    [of "\<lparr>data = [(2, Record_init \<lparr>oid = 1, val = ''Jan''\<rparr> None\<lparr>rid := Some 2\<rparr>)],
          next_id = 3, free_ids = {|1, 4|}\<rparr>" "Record_init \<lparr>oid = 2, val = ''Ewa''\<rparr> None"]
  by (simp add: fMin_finsert)

theorem delete_record_by_id_live_or_not_found_witness:
  "1 \<in> live_ids \<lparr>data = [(1, Record_init \<lparr>oid = 0, val = ''Anna''\<rparr> None\<lparr>rid := Some 1\<rparr>)],
                  next_id = 2, free_ids = {||}\<rparr>
   \<and> delete_record_by_id
        \<lparr>data = [(1, Record_init \<lparr>oid = 0, val = ''Anna''\<rparr> None\<lparr>rid := Some 1\<rparr>)],
          next_id = 2, free_ids = {||}\<rparr> (Some 1)
      = (\<lparr>data = [], next_id = 2, free_ids = {|1|}\<rparr>, Deleted 1)
   \<and> 7 \<notin> live_ids \<lparr>data = [(1, Record_init \<lparr>oid = 0, val = ''Anna''\<rparr> None\<lparr>rid := Some 1\<rparr>)],
                  next_id = 2, free_ids = {||}\<rparr>
   \<and> delete_record_by_id
        \<lparr>data = [(1, Record_init \<lparr>oid = 0, val = ''Anna''\<rparr> None\<lparr>rid := Some 1\<rparr>)],
          next_id = 2, free_ids = {||}\<rparr> (Some 7)
      = (\<lparr>data = [(1, Record_init \<lparr>oid = 0, val = ''Anna''\<rparr> None\<lparr>rid := Some 1\<rparr>)],
          next_id = 2, free_ids = {||}\<rparr>, NotFound)"
  using delete_record_by_id_live_or_not_found
    [of 1 "\<lparr>data = [(1, Record_init \<lparr>oid = 0, val = ''Anna''\<rparr> None\<lparr>rid := Some 1\<rparr>)],
          next_id = 2, free_ids = {||}\<rparr>"]
    delete_record_by_id_live_or_not_found
    [of 7 "\<lparr>data = [(1, Record_init \<lparr>oid = 0, val = ''Anna''\<rparr> None\<lparr>rid := Some 1\<rparr>)],
          next_id = 2, free_ids = {||}\<rparr>"]
  by (simp add: live_ids_def delete_record_by_id_def in_data_def)



text \<open>
  Claim C8 as stated fails: removing a phone that is not in the list raises \<open>ValueError\<close>.
\<close>

theorem remove_phone_absent_raises:
  "remove_phone (Record_init \<lparr>oid = 0, val = ''Anna''\<rparr> None
        \<lparr>phones := [\<lparr>oid = 1, val = ''111111111''\<rparr>]\<rparr>) \<lparr>oid = 2, val = ''222222222''\<rparr>
     = (Record_init \<lparr>oid = 0, val = ''Anna''\<rparr> None
        \<lparr>phones := [\<lparr>oid = 1, val = ''111111111''\<rparr>]\<rparr>, Some ValueError)"
  by (simp add: Record_init_def py_eq_def remove_phone_def)

theorem remove_phone_first_or_ValueError_witness:
  "(\<exists>p\<in>set (phones (Record_init \<lparr>oid = 0, val = ''Anna''\<rparr> None
        \<lparr>phones := [\<lparr>oid = 1, val = ''111111111''\<rparr>, \<lparr>oid = 2, val = ''222222222''\<rparr>]\<rparr>)).
      py_eq p \<lparr>oid = 2, val = ''222222222''\<rparr>)
   \<and> remove_phone (Record_init \<lparr>oid = 0, val = ''Anna''\<rparr> None
        \<lparr>phones := [\<lparr>oid = 1, val = ''111111111''\<rparr>, \<lparr>oid = 2, val = ''222222222''\<rparr>]\<rparr>)
        \<lparr>oid = 2, val = ''222222222''\<rparr>
     = (Record_init \<lparr>oid = 0, val = ''Anna''\<rparr> None
        \<lparr>phones := [\<lparr>oid = 1, val = ''111111111''\<rparr>]\<rparr>, None)
   \<and> remove_phone (Record_init \<lparr>oid = 0, val = ''Anna''\<rparr> None
        \<lparr>phones := [\<lparr>oid = 1, val = ''111111111''\<rparr>, \<lparr>oid = 2, val = ''222222222''\<rparr>]\<rparr>)
        \<lparr>oid = 5, val = ''222222222''\<rparr>
     = (Record_init \<lparr>oid = 0, val = ''Anna''\<rparr> None
        \<lparr>phones := [\<lparr>oid = 1, val = ''111111111''\<rparr>, \<lparr>oid = 2, val = ''222222222''\<rparr>]\<rparr>,
        Some ValueError)"
  using remove_phone_first_or_ValueError
    [of "Record_init \<lparr>oid = 0, val = ''Anna''\<rparr> None
        \<lparr>phones := [\<lparr>oid = 1, val = ''111111111''\<rparr>, \<lparr>oid = 2, val = ''222222222''\<rparr>]\<rparr>"
        "\<lparr>oid = 2, val = ''222222222''\<rparr>"]
    remove_phone_first_or_ValueError
    [of "Record_init \<lparr>oid = 0, val = ''Anna''\<rparr> None
        \<lparr>phones := [\<lparr>oid = 1, val = ''111111111''\<rparr>, \<lparr>oid = 2, val = ''222222222''\<rparr>]\<rparr>"
        "\<lparr>oid = 5, val = ''222222222''\<rparr>"]
  by (simp add: Record_init_def py_eq_def remove_phone_def)

theorem find_record_exactly_matching_witness:
  "find_record
     \<lparr>data = [(1, Record_init \<lparr>oid = 0, val = CHR 0xD3 # ''semka''\<rparr> None\<lparr>rid := Some 1\<rparr>)],
      next_id = 2, free_ids = {||}\<rparr> (CHR 0xF3 # ''SEMKA'')
   = [Record_init \<lparr>oid = 0, val = CHR 0xD3 # ''semka''\<rparr> None\<lparr>rid := Some 1\<rparr>]
   \<and> find_record
     \<lparr>data = [(1, Record_init \<lparr>oid = 0, val = ''Anna''\<rparr> None\<lparr>rid := Some 1\<rparr>),
              (2, Record_init \<lparr>oid = 1, val = ''Jan''\<rparr> None
                    \<lparr>rid := Some 2, emails := [\<lparr>oid = 2, val = ''jan@d.pl''\<rparr>]\<rparr>),
              (3, Record_init \<lparr>oid = 3, val = ''Ewa''\<rparr> None\<lparr>rid := Some 3\<rparr>)],
      next_id = 4, free_ids = {||}\<rparr> ''AN''
   = [Record_init \<lparr>oid = 0, val = ''Anna''\<rparr> None\<lparr>rid := Some 1\<rparr>,
      Record_init \<lparr>oid = 1, val = ''Jan''\<rparr> None
        \<lparr>rid := Some 2, emails := [\<lparr>oid = 2, val = ''jan@d.pl''\<rparr>]\<rparr>]
   \<and> {r \<in> snd ` set (data
          \<lparr>data = [(1, Record_init \<lparr>oid = 0, val = ''Anna''\<rparr> None\<lparr>rid := Some 1\<rparr>),
              (2, Record_init \<lparr>oid = 1, val = ''Jan''\<rparr> None
                    \<lparr>rid := Some 2, emails := [\<lparr>oid = 2, val = ''jan@d.pl''\<rparr>]\<rparr>),
              (3, Record_init \<lparr>oid = 3, val = ''Ewa''\<rparr> None\<lparr>rid := Some 3\<rparr>)],
            next_id = 4, free_ids = {||}\<rparr>).
        sublist (lower ''AN'') (lower (val (name r)))
        \<or> (\<exists>p\<in>set (phones r). sublist ''AN'' (val p))
        \<or> (\<exists>e\<in>set (emails r). sublist ''AN'' (val e))}
     = {Record_init \<lparr>oid = 0, val = ''Anna''\<rparr> None\<lparr>rid := Some 1\<rparr>,
        Record_init \<lparr>oid = 1, val = ''Jan''\<rparr> None
          \<lparr>rid := Some 2, emails := [\<lparr>oid = 2, val = ''jan@d.pl''\<rparr>]\<rparr>}"
proof -
  let ?b = "\<lparr>data = [(1, Record_init \<lparr>oid = 0, val = ''Anna''\<rparr> None\<lparr>rid := Some 1\<rparr>),
              (2, Record_init \<lparr>oid = 1, val = ''Jan''\<rparr> None
                    \<lparr>rid := Some 2, emails := [\<lparr>oid = 2, val = ''jan@d.pl''\<rparr>]\<rparr>),
              (3, Record_init \<lparr>oid = 3, val = ''Ewa''\<rparr> None\<lparr>rid := Some 3\<rparr>)],
      next_id = 4, free_ids = {||}\<rparr>"
  have 1: "find_record ?b ''AN''
     = [Record_init \<lparr>oid = 0, val = ''Anna''\<rparr> None\<lparr>rid := Some 1\<rparr>,
        Record_init \<lparr>oid = 1, val = ''Jan''\<rparr> None
          \<lparr>rid := Some 2, emails := [\<lparr>oid = 2, val = ''jan@d.pl''\<rparr>]\<rparr>]"
    by (simp add: find_record_def Record_init_def lower_def lower_char_def
        uppercase_letters_def lowercase_letters_def)
  have 2: "find_record
     \<lparr>data = [(1, Record_init \<lparr>oid = 0, val = CHR 0xD3 # ''semka''\<rparr> None\<lparr>rid := Some 1\<rparr>)],
      next_id = 2, free_ids = {||}\<rparr> (CHR 0xF3 # ''SEMKA'')
   = [Record_init \<lparr>oid = 0, val = CHR 0xD3 # ''semka''\<rparr> None\<lparr>rid := Some 1\<rparr>]"
    by (simp add: find_record_def Record_init_def lower_def lower_char_def
        uppercase_letters_def lowercase_letters_def)
  show ?thesis
    using find_record_exactly_matching [of ?b "''AN''"] 2 unfolding 1 by auto
qed

theorem find_record_phone_and_email_twice_witness:
  "(1, Record_init \<lparr>oid = 0, val = ''Anna''\<rparr> None
         \<lparr>rid := Some 1, phones := [\<lparr>oid = 1, val = ''123456789''\<rparr>],
           emails := [\<lparr>oid = 2, val = ''a1@d.pl''\<rparr>]\<rparr>)
     \<in> set (data \<lparr>data = [(1, Record_init \<lparr>oid = 0, val = ''Anna''\<rparr> None
         \<lparr>rid := Some 1, phones := [\<lparr>oid = 1, val = ''123456789''\<rparr>],
           emails := [\<lparr>oid = 2, val = ''a1@d.pl''\<rparr>]\<rparr>)], next_id = 2, free_ids = {||}\<rparr>)
   \<and> find_record \<lparr>data = [(1, Record_init \<lparr>oid = 0, val = ''Anna''\<rparr> None
         \<lparr>rid := Some 1, phones := [\<lparr>oid = 1, val = ''123456789''\<rparr>],
           emails := [\<lparr>oid = 2, val = ''a1@d.pl''\<rparr>]\<rparr>)], next_id = 2, free_ids = {||}\<rparr> ''1''
     = [Record_init \<lparr>oid = 0, val = ''Anna''\<rparr> None
         \<lparr>rid := Some 1, phones := [\<lparr>oid = 1, val = ''123456789''\<rparr>],
           emails := [\<lparr>oid = 2, val = ''a1@d.pl''\<rparr>]\<rparr>,
        Record_init \<lparr>oid = 0, val = ''Anna''\<rparr> None
         \<lparr>rid := Some 1, phones := [\<lparr>oid = 1, val = ''123456789''\<rparr>],
           emails := [\<lparr>oid = 2, val = ''a1@d.pl''\<rparr>]\<rparr>]
   \<and> count_list (find_record \<lparr>data = [(1, Record_init \<lparr>oid = 0, val = ''Anna''\<rparr> None
         \<lparr>rid := Some 1, phones := [\<lparr>oid = 1, val = ''123456789''\<rparr>],
           emails := [\<lparr>oid = 2, val = ''a1@d.pl''\<rparr>]\<rparr>)], next_id = 2, free_ids = {||}\<rparr> ''1'')
       (Record_init \<lparr>oid = 0, val = ''Anna''\<rparr> None
         \<lparr>rid := Some 1, phones := [\<lparr>oid = 1, val = ''123456789''\<rparr>],
           emails := [\<lparr>oid = 2, val = ''a1@d.pl''\<rparr>]\<rparr>) = 2"
proof -
  let ?r = "Record_init \<lparr>oid = 0, val = ''Anna''\<rparr> None
         \<lparr>rid := Some 1, phones := [\<lparr>oid = 1, val = ''123456789''\<rparr>],
           emails := [\<lparr>oid = 2, val = ''a1@d.pl''\<rparr>]\<rparr>"
  let ?b = "\<lparr>data = [(1, ?r)], next_id = 2, free_ids = {||}\<rparr>"
  have h1: "(1, ?r) \<in> set (data ?b)" by simp
  have h2: "distinct (map snd (data ?b))" by simp
  have h3: "\<not> sublist (lower ''1'') (lower (val (name ?r)))"
    unfolding str_in_iff_sublist [symmetric]
    by (simp add: Record_init_def lower_def lower_char_def
        uppercase_letters_def lowercase_letters_def)
  have h4: "\<exists>p\<in>set (phones ?r). sublist ''1'' (val p)"
    unfolding str_in_iff_sublist [symmetric] by (simp add: Record_init_def)
  have h5: "\<exists>e\<in>set (emails ?r). sublist ''1'' (val e)"
    unfolding str_in_iff_sublist [symmetric] by (simp add: Record_init_def)
  have 1: "find_record ?b ''1'' = [?r, ?r]"
    by (simp add: find_record_def Record_init_def lower_def lower_char_def
        uppercase_letters_def lowercase_letters_def)
  from find_record_phone_and_email_twice [OF h1 h2 h3 h4 h5] h1 1 show ?thesis
    by simp
qed

theorem suggest_correction_name_stable_argmin_witness:
  "[(1, Record_init \<lparr>oid = 0, val = ''Jan''\<rparr> None), (2, Record_init \<lparr>oid = 1, val = ''Jon''\<rparr> None),
    (3, Record_init \<lparr>oid = 2, val = ''Ewa''\<rparr> None)] \<noteq> []
   \<and> suggest_correction_name ''Jxn''
        [(1, Record_init \<lparr>oid = 0, val = ''Jan''\<rparr> None), (2, Record_init \<lparr>oid = 1, val = ''Jon''\<rparr> None),
         (3, Record_init \<lparr>oid = 2, val = ''Ewa''\<rparr> None)] = Inr ''Jan''
   \<and> suggest_correction_name ''Ana''
        [(1, Record_init \<lparr>oid = 0, val = ''Jan''\<rparr> None), (2, Record_init \<lparr>oid = 1, val = ''Anna''\<rparr> None)]
        = Inr ''Anna''
   \<and> suggest_correction_name ''Ana'' [] = Inl ValueError"
  using suggest_correction_name_stable_argmin
    [of "''Jxn''" "[(1, Record_init \<lparr>oid = 0, val = ''Jan''\<rparr> None),
        (2, Record_init \<lparr>oid = 1, val = ''Jon''\<rparr> None),
        (3, Record_init \<lparr>oid = 2, val = ''Ewa''\<rparr> None)]"]
  by (simp add: suggest_correction_name_def min_key_def Record_init_def)

text \<open>
  Claim C6 as stated fails: with \<open>today\<close> = 2024-01-02 (midnight) the result for the
  birthday 2000-01-01 is 365, not 364; and for the birthday 2000-02-29 in 2023 the method
  raises \<open>ValueError\<close> instead of returning a number.
\<close>

theorem days_to_birthday_2024_01_02_is_365:
  "days_to_birthday (Record_init \<lparr>oid = 0, val = ''Anna''\<rparr> (Some \<lparr>oid = 1, val = ''2000-01-01''\<rparr>))
     \<lparr>year = 2024, month = 1, day = 2, hour = 0, minute = 0, second = 0, microsecond = 0\<rparr>
     = Inr (Days 365)
   \<and> days_to_birthday (Record_init \<lparr>oid = 0, val = ''Anna''\<rparr> (Some \<lparr>oid = 1, val = ''2000-01-01''\<rparr>))
     \<lparr>year = 2024, month = 1, day = 2, hour = 0, minute = 0, second = 0, microsecond = 0\<rparr>
     \<noteq> Inr (Days 364)
   \<and> days_to_birthday (Record_init \<lparr>oid = 0, val = ''Anna''\<rparr> (Some \<lparr>oid = 1, val = ''2000-02-29''\<rparr>))
     \<lparr>year = 2023, month = 6, day = 1, hour = 12, minute = 0, second = 0, microsecond = 0\<rparr>
     = Inl ValueError"
  using days_to_birthday_2024_01_02_midnight days_to_birthday_leap_day_raises by simp

lemma strptime_1990_06_15:
  "strptime_ymd ''1990-06-15''
     = Inr \<lparr>year = 1990, month = 6, day = 15, hour = 0, minute = 0, second = 0, microsecond = 0\<rparr>"
  by (simp add: strptime_ymd_def Let_def is_digit_def month_pattern_def day_pattern_def
      int_of_digits_def digit_value_def check_date_fields_def days_in_month_def is_leap_def)

theorem days_to_birthday_next_occurrence_witness:
  "birthday (Record_init \<lparr>oid = 0, val = ''Jan''\<rparr> (Some \<lparr>oid = 1, val = ''1990-06-15''\<rparr>))
     = Some \<lparr>oid = 1, val = ''1990-06-15''\<rparr>
   \<and> strptime_ymd (val \<lparr>oid = 1, val = ''1990-06-15''\<rparr>)
     = Inr \<lparr>year = 1990, month = 6, day = 15, hour = 0, minute = 0, second = 0, microsecond = 0\<rparr>
   \<and> check_date_fields 2023 6 15
   \<and> \<not> datetime_less
         \<lparr>year = 2023, month = 6, day = 15, hour = 0, minute = 0, second = 0, microsecond = 0\<rparr>
         \<lparr>year = 2023, month = 3, day = 10, hour = 12, minute = 30, second = 0, microsecond = 0\<rparr>
   \<and> days_to_birthday
        (Record_init \<lparr>oid = 0, val = ''Jan''\<rparr> (Some \<lparr>oid = 1, val = ''1990-06-15''\<rparr>))
        \<lparr>year = 2023, month = 3, day = 10, hour = 12, minute = 30, second = 0, microsecond = 0\<rparr>
     = Inr (Days 96)
   \<and> check_time_fields 10 0 0 0
   \<and> days_to_birthday
        (Record_init \<lparr>oid = 0, val = ''Anna''\<rparr> (Some \<lparr>oid = 1, val = ''2000-01-01''\<rparr>))
        \<lparr>year = 2024, month = 1, day = 2, hour = 10, minute = 0, second = 0, microsecond = 0\<rparr>
     = Inr (Days 364)"
proof -
  let ?r = "Record_init \<lparr>oid = 0, val = ''Jan''\<rparr> (Some \<lparr>oid = 1, val = ''1990-06-15''\<rparr>)"
  let ?b = "\<lparr>oid = 1, val = ''1990-06-15''\<rparr>"
  let ?bd = "\<lparr>year = 1990, month = 6, day = 15, hour = 0, minute = 0, second = 0,
              microsecond = 0\<rparr>"
  let ?t = "\<lparr>year = 2023, month = 3, day = 10, hour = 12, minute = 30, second = 0,
             microsecond = 0\<rparr>"
  have h1: "birthday ?r = Some ?b" by (simp add: Record_init_def)
  have h2: "strptime_ymd (val ?b) = Inr ?bd" by (simp add: strptime_1990_06_15)
  have h3: "check_date_fields 2023 6 15"
    by (simp add: check_date_fields_def days_in_month_def is_leap_def)
  have h4: "\<not> datetime_less
         \<lparr>year = 2023, month = 6, day = 15, hour = 0, minute = 0, second = 0, microsecond = 0\<rparr> ?t"
    by (simp add: datetime_less_def)
  have h5: "check_time_fields 10 0 0 0" by (simp add: check_time_fields_def)
  have g: "days_to_birthday ?r ?t = Inr (Days 96)"
    using days_to_birthday_next_occurrence [of ?r ?b ?bd ?t] h1 h2 h3 h4
    by (simp add: total_microseconds_def ymd2ord_def days_before_year_def
        days_before_month_def is_leap_def)
  have g2: "days_to_birthday
        (Record_init \<lparr>oid = 0, val = ''Anna''\<rparr> (Some \<lparr>oid = 1, val = ''2000-01-01''\<rparr>))
        \<lparr>year = 2024, month = 1, day = 2, hour = 10, minute = 0, second = 0, microsecond = 0\<rparr>
     = Inr (Days 364)"
    using days_to_birthday_next_occurrence [of ?r ?b ?bd ?t] h5 by simp
  show ?thesis using h1 h2 h3 h4 h5 g g2 by simp
qed

end
